theory Spec2Isabelle
  imports Main "HOL-Library.Word" "HOL-Library.Sublist"
begin

unbundle bit_operations_syntax

section \<open>The ZIP responding service of tashrouter\<close>

text \<open>
  A shallow embedding of \<^verbatim>\<open>src/tashrouter/service/zip/responding.py\<close>, class
  \<^verbatim>\<open>ZipRespondingService\<close>. Every handler returns the calls it made to
  \<^verbatim>\<open>router.route\<close> and \<^verbatim>\<open>rx_port.send\<close>, in order, together with the
  exception that ended it, if one did.
\<close>

subsection \<open>Values\<close>

type_synonym byte = "8 word"
type_synonym bytes = "byte list"

text \<open>
  The Python values that reach the zone table and \<^verbatim>\<open>struct.pack\<close> as a network
  number: an \<^verbatim>\<open>int\<close>, or the tuple that \<^verbatim>\<open>struct.unpack\<close> returns.
\<close>

datatype pyval = PyInt int | PyTuple "pyval list"

datatype error = StructError | TypeError

text \<open>
  The class \<^verbatim>\<open>Datagram\<close> is not among the source files: a datagram is the record
  of the fields the service reads and writes, and \<^verbatim>\<open>Datagram(...)\<close> builds it from
  the values given.
\<close>

record datagram =
  hop_count :: int
  destination_network :: int
  source_network :: int
  destination_node :: int
  source_node :: int
  destination_socket :: int
  source_socket :: int
  ddp_type :: int
  data :: bytes

text \<open>
  The class \<^verbatim>\<open>ZipService\<close> that holds the protocol constants is not among the
  source files; the constants are parameters of the model. Function codes, flag bits and
  ATP control bits are one-byte fields of the wire format.
\<close>

record zip_service =
  ZIP_DDP_TYPE :: int
  ZIP_SAS :: int
  ZIP_FUNC_QUERY :: byte
  ZIP_FUNC_REPLY :: byte
  ZIP_FUNC_GETNETINFO_REQUEST :: byte
  ZIP_FUNC_GETNETINFO_REPLY :: byte
  ZIP_FUNC_EXT_REPLY :: byte
  ZIP_GETNETINFO_ZONE_INVALID :: byte
  ZIP_GETNETINFO_USE_BROADCAST :: byte
  ZIP_GETNETINFO_ONLY_ONE_ZONE :: byte
  ATP_DDP_TYPE :: int
  ATP_FUNC_TREQ :: byte
  ATP_FUNC_TRESP :: byte
  ATP_EOM :: byte
  ZIP_ATP_FUNC_GETMYZONE :: byte
  ZIP_ATP_FUNC_GETZONELIST :: byte
  ZIP_ATP_FUNC_GETLOCALZONES :: byte

text \<open>
  The zone information table is a collaborator that is not among the source files: its
  three enumerations are parameters, each a finite sequence of zone names in table order.
  \<^verbatim>\<open>zones_in_network\<close> takes whatever value the caller passes.
\<close>

record zone_information_table =
  zones :: "bytes list"
  zones_in_network :: "pyval \<Rightarrow> bytes list"
  zones_in_network_range :: "int \<Rightarrow> int \<Rightarrow> bytes list"

record port =
  network :: int
  network_min :: int
  network_max :: int
  node :: int
  multicast_address :: "bytes \<Rightarrow> bytes"

text \<open>
  \<^verbatim>\<open>Route d\<close> is the call \<^verbatim>\<open>router.route(d)\<close>; \<^verbatim>\<open>Send net node d\<close> is the call
  \<^verbatim>\<open>rx_port.send(net, node, d)\<close> on the port the request came in through.
\<close>

datatype event = Route datagram | Send int int datagram

type_synonym outcome = "event list \<times> error option"

subsection \<open>struct.pack and struct.unpack\<close>

definition pack_B :: "int \<Rightarrow> error + bytes" where
  "pack_B n = (if 0 \<le> n \<and> n \<le> 255 then Inr [word_of_int n] else Inl StructError)"

definition pack_H :: "int \<Rightarrow> error + bytes" where
  "pack_H n =
     (if 0 \<le> n \<and> n \<le> 65535 then Inr [word_of_int (n div 256), word_of_int (n mod 256)]
      else Inl StructError)"

text \<open>\<^verbatim>\<open>struct.pack('>HB', network, n)\<close>: a network that is not an integer is refused.\<close>

definition pack_HB :: "pyval \<Rightarrow> int \<Rightarrow> error + bytes" where
  "pack_HB net n =
     (case net of
        PyInt i \<Rightarrow>
          (case pack_H i of
             Inl e \<Rightarrow> Inl e
           | Inr h \<Rightarrow> (case pack_B n of Inl e \<Rightarrow> Inl e | Inr b \<Rightarrow> Inr (h @ b)))
      | PyTuple _ \<Rightarrow> Inl StructError)"

text \<open>\<^verbatim>\<open>xs[lo:hi]\<close> for \<open>0 \<le> lo \<le> hi\<close>: a slice stops at the end of the sequence.\<close>

definition py_slice :: "'a list \<Rightarrow> nat \<Rightarrow> nat \<Rightarrow> 'a list" where
  "py_slice xs lo hi = take (hi - lo) (drop lo xs)"

text \<open>\<^verbatim>\<open>struct.unpack('>H', b)\<close> returns a tuple of one integer.\<close>

definition unpack_H :: "bytes \<Rightarrow> error + pyval" where
  "unpack_H b =
     (case b of
        [hi, lo] \<Rightarrow> Inr (PyTuple [PyInt (256 * uint hi + uint lo)])
      | _ \<Rightarrow> Inl StructError)"

text \<open>\<^verbatim>\<open>struct.unpack('>BBHBBH', b)\<close>: the ATP header, eight bytes.\<close>

definition unpack_BBHBBH :: "bytes \<Rightarrow> error + (byte \<times> byte \<times> int \<times> byte \<times> byte \<times> int)" where
  "unpack_BBHBBH b =
     (case b of
        [c, m, t1, t0, f, z, s1, s0] \<Rightarrow>
          Inr (c, m, 256 * uint t1 + uint t0, f, z, 256 * uint s1 + uint s0)
      | _ \<Rightarrow> Inl StructError)"

subsection \<open>Replies\<close>

text \<open>
  The \<^verbatim>\<open>Datagram(...)\<close> that \<^verbatim>\<open>_query\<close>, \<^verbatim>\<open>_get_my_zone\<close> and \<^verbatim>\<open>_get_zone_list\<close>
  hand to \<^verbatim>\<open>router.route\<close>: addressed back to the sender, from network and node zero.
\<close>

definition routed_reply :: "datagram \<Rightarrow> int \<Rightarrow> bytes \<Rightarrow> datagram" where
  "routed_reply d t payload =
     \<lparr>hop_count = 0,
      destination_network = source_network d,
      source_network = 0,
      destination_node = source_node d,
      source_node = 0,
      destination_socket = source_socket d,
      source_socket = destination_socket d,
      ddp_type = t,
      data = payload\<rparr>"

subsection \<open>_networks_zone_list and _query\<close>

text \<open>The inner loop of \<^verbatim>\<open>_networks_zone_list\<close>: the zones of one network.\<close>

fun zone_items :: "pyval \<Rightarrow> bytes list \<Rightarrow> error + (pyval \<times> bytes) list" where
  "zone_items net [] = Inr []"
| "zone_items net (zone_name # rest) =
     (case pack_HB net (int (length zone_name)) of
        Inl e \<Rightarrow> Inl e
      | Inr h \<Rightarrow>
          (case zone_items net rest of
             Inl e \<Rightarrow> Inl e
           | Inr items \<Rightarrow> Inr ((net, h @ zone_name) # items)))"

text \<open>
  \<^verbatim>\<open>list(cls._networks_zone_list(zit, networks))\<close>: the generator run to its end, or
  to the first exception.
\<close>

fun networks_zone_list ::
  "zone_information_table \<Rightarrow> pyval list \<Rightarrow> error + (pyval \<times> bytes) list" where
  "networks_zone_list zit [] = Inr []"
| "networks_zone_list zit (net # rest) =
     (case zone_items net (zones_in_network zit net) of
        Inl e \<Rightarrow> Inl e
      | Inr items \<Rightarrow>
          (case networks_zone_list zit rest of
             Inl e \<Rightarrow> Inl e
           | Inr others \<Rightarrow> Inr (items @ others)))"

text \<open>The list comprehension that decodes the requested networks, one per index.\<close>

fun unpack_networks :: "bytes \<Rightarrow> nat list \<Rightarrow> error + pyval list" where
  "unpack_networks b [] = Inr []"
| "unpack_networks b (i # rest) =
     (case unpack_H (py_slice b (i * 2 + 2) (i * 2 + 4)) of
        Inl e \<Rightarrow> Inl e
      | Inr v \<Rightarrow>
          (case unpack_networks b rest of
             Inl e \<Rightarrow> Inl e
           | Inr vs \<Rightarrow> Inr (v # vs)))"

text \<open>
  \<^verbatim>\<open>zone_list_by_network\<close>: a dict of deques, in the order the networks were first
  inserted.
\<close>

fun add_item :: "pyval \<Rightarrow> bytes \<Rightarrow> (pyval \<times> bytes list) list \<Rightarrow> (pyval \<times> bytes list) list" where
  "add_item net list_item [] = [(net, [list_item])]"
| "add_item net list_item ((k, zone_list) # rest) =
     (if k = net then (k, zone_list @ [list_item]) # rest
      else (k, zone_list) # add_item net list_item rest)"

definition group_by_network :: "(pyval \<times> bytes) list \<Rightarrow> (pyval \<times> bytes list) list" where
  "group_by_network nzl = foldl (\<lambda>acc (net, list_item). add_item net list_item acc) [] nzl"

text \<open>
  The inner loop of the fragmenting branch, over \<^verbatim>\<open>chain(zone_list, (None,))\<close>.
  \<open>n\<close> is \<^verbatim>\<open>len(zone_list)\<close>, \<open>dd\<close> is \<^verbatim>\<open>datagram_data\<close> and \<open>dl\<close> is
  \<^verbatim>\<open>datagram_data_length\<close>. Nothing empties \<open>dd\<close> after a datagram is routed, and
  the last two statements of the body run for \<^verbatim>\<open>None\<close> too, where \<^verbatim>\<open>len(None)\<close>
  raises \<^verbatim>\<open>TypeError\<close>.
\<close>

fun fragment_items ::
  "zip_service \<Rightarrow> int \<Rightarrow> datagram \<Rightarrow> nat \<Rightarrow> bytes list \<Rightarrow> nat \<Rightarrow> bytes option list \<Rightarrow> outcome" where
  "fragment_items C max_len d n dd dl [] = ([], None)"
| "fragment_items C max_len d n dd dl (list_item # rest) =
     (let flush =
        (case list_item of
           None \<Rightarrow> True
         | Some b \<Rightarrow> int dl + int (length b) > max_len - 2)
      in
      case (if flush then
              (case pack_B (int n) of
                 Inl e \<Rightarrow> Inl e
               | Inr c \<Rightarrow>
                   Inr [Route (routed_reply d (ZIP_DDP_TYPE C)
                                 ([ZIP_FUNC_EXT_REPLY C] @ c @ concat dd))])
            else Inr []) of
        Inl e \<Rightarrow> ([], Some e)
      | Inr out \<Rightarrow>
          (case list_item of
             None \<Rightarrow> (out, Some TypeError)
           | Some b \<Rightarrow>
               (case fragment_items C max_len d n (dd @ [b]) (dl + length b) rest of
                  (out', err) \<Rightarrow> (out @ out', err))))"

text \<open>The outer loop, over \<^verbatim>\<open>zone_list_by_network.items()\<close>.\<close>

fun fragment_networks ::
  "zip_service \<Rightarrow> int \<Rightarrow> datagram \<Rightarrow> (pyval \<times> bytes list) list \<Rightarrow> outcome" where
  "fragment_networks C max_len d [] = ([], None)"
| "fragment_networks C max_len d ((net, zone_list) # rest) =
     (case fragment_items C max_len d (length zone_list) [] 0 (map Some zone_list @ [None]) of
        (out, Some e) \<Rightarrow> (out, Some e)
      | (out, None) \<Rightarrow>
          (case fragment_networks C max_len d rest of
             (out', err) \<Rightarrow> (out @ out', err)))"

text \<open>
  \<^verbatim>\<open>_query\<close>. \<open>max_len\<close> is \<^verbatim>\<open>Datagram.MAX_DATA_LENGTH\<close>, a constant of a class that
  is not among the source files.
\<close>

definition query :: "zip_service \<Rightarrow> zone_information_table \<Rightarrow> int \<Rightarrow> datagram \<Rightarrow> outcome" where
  "query C zit max_len d =
     (if length (data d) < 4 then ([], None)
      else
        let network_count = unat (data d ! 1) in
        if length (data d) \<noteq> network_count * 2 + 2 then ([], None)
        else
          (case unpack_networks (data d) [0..<network_count] of
             Inl e \<Rightarrow> ([], Some e)
           | Inr networks \<Rightarrow>
               (case networks_zone_list zit networks of
                  Inl e \<Rightarrow> ([], Some e)
                | Inr nzl \<Rightarrow>
                    if int (sum_list (map (\<lambda>(net, list_item). length list_item) nzl)) + 2
                         \<le> max_len
                    then
                      (case pack_B (int (length networks)) of
                         Inl e \<Rightarrow> ([], Some e)
                       | Inr c \<Rightarrow>
                           ([Route (routed_reply d (ZIP_DDP_TYPE C)
                                      ([ZIP_FUNC_REPLY C] @ c @ concat (map snd nzl)))],
                            None))
                    else fragment_networks C max_len d (group_by_network nzl))))"

subsection \<open>_get_net_info\<close>

text \<open>
  The loop of \<^verbatim>\<open>_get_net_info\<close> over the zones of the port's range. The state is
  \<^verbatim>\<open>(flags, default_zone_name, number_of_zones, multicast_address)\<close>; \<open>given\<close> is
  \<^verbatim>\<open>given_zone_name_ucase\<close>. The \<^verbatim>\<open>break\<close> leaves the loop with the state as it is.
\<close>

fun scan_zones ::
  "zip_service \<Rightarrow> port \<Rightarrow> (bytes \<Rightarrow> bytes) \<Rightarrow> bytes \<Rightarrow>
   byte \<times> bytes option \<times> nat \<times> bytes \<Rightarrow> bytes list \<Rightarrow> byte \<times> bytes option \<times> nat \<times> bytes" where
  "scan_zones C rx_port ucase given st [] = st"
| "scan_zones C rx_port ucase given (flags, default_zone_name, number_of_zones, mcast)
     (zone_name # rest) =
     (let n1 = number_of_zones + 1;
          (dz1, m1) =
            (if default_zone_name = None
             then (Some zone_name, multicast_address rx_port zone_name)
             else (default_zone_name, mcast));
          (f2, m2) =
            (if ucase zone_name = given
             then (flags AND NOT (ZIP_GETNETINFO_ZONE_INVALID C),
                   multicast_address rx_port zone_name)
             else (flags, m1))
      in
      if n1 > 1 then
        (let f3 = f2 AND NOT (ZIP_GETNETINFO_ONLY_ONE_ZONE C) in
         if f3 AND ZIP_GETNETINFO_ZONE_INVALID C = 0 then (f3, dz1, n1, m2)
         else scan_zones C rx_port ucase given (f3, dz1, n1, m2) rest)
      else scan_zones C rx_port ucase given (f2, dz1, n1, m2) rest)"

text \<open>
  The two last members of the tuple joined into \<^verbatim>\<open>reply_data\<close>: present when the
  zone-invalid flag is set. \<^verbatim>\<open>len(None)\<close> raises \<^verbatim>\<open>TypeError\<close>.
\<close>

definition default_zone_tail :: "zip_service \<Rightarrow> byte \<Rightarrow> bytes option \<Rightarrow> error + bytes" where
  "default_zone_tail C flags default_zone_name =
     (if flags AND ZIP_GETNETINFO_ZONE_INVALID C \<noteq> 0 then
        (case default_zone_name of
           None \<Rightarrow> Inl TypeError
         | Some z \<Rightarrow> (case pack_B (int (length z)) of Inl e \<Rightarrow> Inl e | Inr l \<Rightarrow> Inr (l @ z)))
      else Inr [])"

text \<open>
  \<^verbatim>\<open>_get_net_info\<close>. \<open>ucase\<close> is the case folding of the zone information table's
  module, which is not among the source files.
\<close>

definition get_net_info ::
  "zip_service \<Rightarrow> zone_information_table \<Rightarrow> (bytes \<Rightarrow> bytes) \<Rightarrow> datagram \<Rightarrow> port \<Rightarrow> outcome" where
  "get_net_info C zit ucase d rx_port =
     (if network rx_port = 0 \<or> network_min rx_port = 0 \<or> network_max rx_port = 0 then ([], None)
      else if length (data d) < 7 then ([], None)
      else if py_slice (data d) 1 6 \<noteq> [0, 0, 0, 0, 0] then ([], None)
      else
        let given_zone_name = py_slice (data d) 7 (7 + unat (data d ! 6));
            (flags0, default_zone_name, number_of_zones, mcast) =
              scan_zones C rx_port ucase (ucase given_zone_name)
                (ZIP_GETNETINFO_ZONE_INVALID C OR ZIP_GETNETINFO_ONLY_ONE_ZONE C, None, 0, [])
                (zones_in_network_range zit (network_min rx_port) (network_max rx_port));
            flags = (if mcast = [] then flags0 OR ZIP_GETNETINFO_USE_BROADCAST C else flags0)
        in
        (case pack_H (network_min rx_port) of
           Inl e \<Rightarrow> ([], Some e)
         | Inr lo \<Rightarrow>
        (case pack_H (network_max rx_port) of
           Inl e \<Rightarrow> ([], Some e)
         | Inr hi \<Rightarrow>
        (case pack_B (int (length given_zone_name)) of
           Inl e \<Rightarrow> ([], Some e)
         | Inr gl \<Rightarrow>
        (case pack_B (int (length mcast)) of
           Inl e \<Rightarrow> ([], Some e)
         | Inr ml \<Rightarrow>
        (case default_zone_tail C flags default_zone_name of
           Inl e \<Rightarrow> ([], Some e)
         | Inr tail \<Rightarrow>
             ([Send (source_network d) (source_node d)
                 \<lparr>hop_count = 0,
                  destination_network = source_network d,
                  source_network = network rx_port,
                  destination_node = source_node d,
                  source_node = node rx_port,
                  destination_socket = source_socket d,
                  source_socket = ZIP_SAS C,
                  ddp_type = ZIP_DDP_TYPE C,
                  data = [ZIP_FUNC_GETNETINFO_REPLY C, flags] @ lo @ hi @ gl
                         @ given_zone_name @ ml @ mcast @ tail\<rparr>],
              None)))))))"

subsection \<open>_get_my_zone and _get_zone_list\<close>

text \<open>\<^verbatim>\<open>next(it, None)\<close> on a fresh iterator.\<close>

definition next_or_None :: "'a list \<Rightarrow> 'a option" where
  "next_or_None xs = (case xs of [] \<Rightarrow> None | x # _ \<Rightarrow> Some x)"

text \<open>\<^verbatim>\<open>not zone_name\<close>: true of \<^verbatim>\<open>None\<close> and of the empty byte string.\<close>

definition falsy :: "bytes option \<Rightarrow> bool" where
  "falsy v = (case v of None \<Rightarrow> True | Some b \<Rightarrow> b = [])"

definition get_my_zone :: "zip_service \<Rightarrow> zone_information_table \<Rightarrow> datagram \<Rightarrow> outcome" where
  "get_my_zone C zit d =
     (case unpack_BBHBBH (data d) of
        Inl e \<Rightarrow> ([], Some e)
      | Inr (_, _, tid, _, _, start_index) \<Rightarrow>
          if start_index \<noteq> 0 then ([], None)
          else
            let zone_name = next_or_None (zones_in_network zit (PyInt (source_network d))) in
            if falsy zone_name then ([], None)
            else
              (case pack_H tid of
                 Inl e \<Rightarrow> ([], Some e)
               | Inr t \<Rightarrow>
                   (case pack_B (int (length (the zone_name))) of
                      Inl e \<Rightarrow> ([], Some e)
                    | Inr l \<Rightarrow>
                        ([Route (routed_reply d (ATP_DDP_TYPE C)
                                   ([ATP_FUNC_TRESP C OR ATP_EOM C, 0] @ t @ [0, 0, 0, 1] @ l
                                    @ the zone_name))],
                         None))))"

text \<open>
  The \<^verbatim>\<open>while zone_name := next(zone_iter, None)\<close> loop of \<^verbatim>\<open>_get_zone_list\<close>, with
  its \<^verbatim>\<open>else\<close> clause. The result is \<^verbatim>\<open>(last_flag, zone_list, num_zones)\<close>. The loop
  condition is false when the iterator is exhausted and when the name it gives is empty.
\<close>

fun collect_zones ::
  "int \<Rightarrow> bytes list \<Rightarrow> bytes list \<Rightarrow> nat \<Rightarrow> nat \<Rightarrow> error + (byte \<times> bytes list \<times> nat)" where
  "collect_zones max_len [] zone_list num_zones data_length = Inr (1, zone_list, num_zones)"
| "collect_zones max_len (zone_name # rest) zone_list num_zones data_length =
     (if zone_name = [] then Inr (1, zone_list, num_zones)
      else if int data_length + 1 + int (length zone_name) > max_len
      then Inr (0, zone_list, num_zones)
      else
        (case pack_B (int (length zone_name)) of
           Inl e \<Rightarrow> Inl e
         | Inr l \<Rightarrow>
             collect_zones max_len rest (zone_list @ [l, zone_name]) (num_zones + 1)
               (data_length + 1 + length zone_name)))"

text \<open>
  How many times \<^verbatim>\<open>for _ in range(start_index - 1)\<close> runs: \<^verbatim>\<open>range\<close> of a negative
  number is empty.
\<close>

definition skip_count :: "int \<Rightarrow> nat" where
  "skip_count start_index = nat (start_index - 1)"

text \<open>
  \<^verbatim>\<open>_get_zone_list\<close>. Each skipping step is \<^verbatim>\<open>next(zone_iter, None)\<close>, which does
  nothing on an exhausted iterator. A port object is true in a condition, \<^verbatim>\<open>None\<close> is
  false.
\<close>

definition get_zone_list ::
  "zip_service \<Rightarrow> zone_information_table \<Rightarrow> int \<Rightarrow> datagram \<Rightarrow> port option \<Rightarrow> outcome" where
  "get_zone_list C zit max_len d rx_port =
     (case unpack_BBHBBH (data d) of
        Inl e \<Rightarrow> ([], Some e)
      | Inr (_, _, tid, _, _, start_index) \<Rightarrow>
          let zone_iter =
                (case rx_port of
                   Some p \<Rightarrow> zones_in_network_range zit (network_min p) (network_max p)
                 | None \<Rightarrow> zones zit)
          in
          (case collect_zones max_len (drop (skip_count start_index) zone_iter) [] 0 8 of
             Inl e \<Rightarrow> ([], Some e)
           | Inr (last_flag, zone_list, num_zones) \<Rightarrow>
               (case pack_H tid of
                  Inl e \<Rightarrow> ([], Some e)
                | Inr t \<Rightarrow>
                    (case pack_H (int num_zones) of
                       Inl e \<Rightarrow> ([], Some e)
                     | Inr n \<Rightarrow>
                         ([Route (routed_reply d (ATP_DDP_TYPE C)
                                    ([ATP_FUNC_TRESP C OR ATP_EOM C, 0] @ t @ [last_flag, 0] @ n
                                     @ concat zone_list))],
                          None)))))"

subsection \<open>_run\<close>

text \<open>The body of the loop of \<^verbatim>\<open>_run\<close> for one item of the queue.\<close>

definition dispatch ::
  "zip_service \<Rightarrow> zone_information_table \<Rightarrow> (bytes \<Rightarrow> bytes) \<Rightarrow> int \<Rightarrow> datagram \<Rightarrow> port \<Rightarrow> outcome" where
  "dispatch C zit ucase max_len d rx_port =
     (if ddp_type d = ZIP_DDP_TYPE C then
        (if data d = [] then ([], None)
         else if data d ! 0 = ZIP_FUNC_QUERY C then query C zit max_len d
         else if data d ! 0 = ZIP_FUNC_GETNETINFO_REQUEST C then get_net_info C zit ucase d rx_port
         else ([], None))
      else if ddp_type d = ATP_DDP_TYPE C then
        (if length (data d) \<noteq> 8 then ([], None)
         else
           (case unpack_BBHBBH (data d) of
              Inl e \<Rightarrow> ([], Some e)
            | Inr (control, bitmap, _, func, zero, _) \<Rightarrow>
                if control \<noteq> ATP_FUNC_TREQ C \<or> bitmap \<noteq> 1 \<or> zero \<noteq> 0 then ([], None)
                else if func = ZIP_ATP_FUNC_GETMYZONE C then get_my_zone C zit d
                else if func = ZIP_ATP_FUNC_GETZONELIST C then get_zone_list C zit max_len d None
                else if func = ZIP_ATP_FUNC_GETLOCALZONES C
                then get_zone_list C zit max_len d (Some rx_port)
                else ([], None)))
      else ([], None))"

text \<open>
  What the queue holds: the stop flag or a pair of a datagram and the port it came in
  through. The worker ends \<open>Stopped\<close> at the stop flag, \<open>Crashed\<close> when a handler
  raises (nothing in \<^verbatim>\<open>_run\<close> catches an exception), and is \<open>Waiting\<close> in
  \<^verbatim>\<open>queue.get()\<close> once the queue is empty.
\<close>

datatype item = Stop | Work datagram port

datatype status = Stopped | Crashed error | Waiting

fun run ::
  "zip_service \<Rightarrow> zone_information_table \<Rightarrow> (bytes \<Rightarrow> bytes) \<Rightarrow> int \<Rightarrow> item list \<Rightarrow>
   event list \<times> status" where
  "run C zit ucase max_len [] = ([], Waiting)"
| "run C zit ucase max_len (Stop # queue) = ([], Stopped)"
| "run C zit ucase max_len (Work d rx_port # queue) =
     (case dispatch C zit ucase max_len d rx_port of
        (out, Some e) \<Rightarrow> (out, Crashed e)
      | (out, None) \<Rightarrow>
          (case run C zit ucase max_len queue of
             (out', st) \<Rightarrow> (out @ out', st)))"

section \<open>Sample values\<close>

text \<open>
  Values for evaluating the model at concrete inputs. The constants are the ones the
  AppleTalk protocols assign (ZIP on DDP type 6 and socket 6, ATP on DDP type 3, a DDP
  payload of at most 586 bytes). Every theorem below that is not such an evaluation
  holds for all values of the constants.
\<close>

definition appletalk :: zip_service where
  "appletalk =
     \<lparr>ZIP_DDP_TYPE = 6,
      ZIP_SAS = 6,
      ZIP_FUNC_QUERY = 1,
      ZIP_FUNC_REPLY = 2,
      ZIP_FUNC_GETNETINFO_REQUEST = 5,
      ZIP_FUNC_GETNETINFO_REPLY = 6,
      ZIP_FUNC_EXT_REPLY = 8,
      ZIP_GETNETINFO_ZONE_INVALID = 128,
      ZIP_GETNETINFO_USE_BROADCAST = 64,
      ZIP_GETNETINFO_ONLY_ONE_ZONE = 32,
      ATP_DDP_TYPE = 3,
      ATP_FUNC_TREQ = 64,
      ATP_FUNC_TRESP = 128,
      ATP_EOM = 16,
      ZIP_ATP_FUNC_GETMYZONE = 7,
      ZIP_ATP_FUNC_GETZONELIST = 8,
      ZIP_ATP_FUNC_GETLOCALZONES = 9\<rparr>"

text \<open>A request from node 7, socket 253 of network 10 to socket 6.\<close>

definition request :: "int \<Rightarrow> bytes \<Rightarrow> datagram" where
  "request t payload =
     \<lparr>hop_count = 0,
      destination_network = 0,
      source_network = 10,
      destination_node = 255,
      source_node = 7,
      destination_socket = 6,
      source_socket = 253,
      ddp_type = t,
      data = payload\<rparr>"

text \<open>A table in which every enumeration gives the same zone names.\<close>

definition uniform_table :: "bytes list \<Rightarrow> zone_information_table" where
  "uniform_table zs =
     \<lparr>zones = zs, zones_in_network = (\<lambda>_. zs), zones_in_network_range = (\<lambda>_ _. zs)\<rparr>"

text \<open>A port on the network range 10 to 12 that has no multicast addresses.\<close>

definition sample_port :: port where
  "sample_port =
     \<lparr>network = 10, network_min = 10, network_max = 12, node = 1,
      multicast_address = (\<lambda>_. [])\<rparr>"

text \<open>Upper case of the ASCII letters, standing in for the table's case folding.\<close>

definition ascii_ucase :: "bytes \<Rightarrow> bytes" where
  "ascii_ucase b = map (\<lambda>c. if 97 \<le> c \<and> c \<le> 122 then c - 32 else c) b"

section \<open>Notions the properties are stated with\<close>

text \<open>A zone name on the wire of an ATP reply: its length, then its bytes.\<close>

definition entry :: "bytes \<Rightarrow> bytes" where
  "entry zone_name = word_of_nat (length zone_name) # zone_name"

definition entries_size :: "bytes list \<Rightarrow> nat" where
  "entries_size zs = sum_list (map (\<lambda>z. 1 + length z) zs)"

text \<open>A 16-bit count in network byte order.\<close>

definition be16 :: "nat \<Rightarrow> bytes" where
  "be16 n = [word_of_nat (n div 256), word_of_nat (n mod 256)]"

text \<open>
  The networks a query payload lists, as \<^verbatim>\<open>_query\<close> decodes them: each the
  one-element tuple \<^verbatim>\<open>struct.unpack\<close> returns.
\<close>

definition requested_networks :: "bytes \<Rightarrow> pyval list" where
  "requested_networks b =
     map (\<lambda>i. PyTuple [PyInt (256 * uint (b ! (2 * i + 2)) + uint (b ! (2 * i + 3)))])
       [0..<unat (b ! 1)]"

section \<open>Lemmas on the byte codecs\<close>

lemma pack_H_uint: "pack_H (256 * uint (a::byte) + uint (b::byte)) = Inr [a, b]"
proof -
  have a: "0 \<le> uint a" "uint a < 256" "0 \<le> uint b" "uint b < 256"
    using uint_lt2p [of a] uint_lt2p [of b] by simp_all
  have d: "(256 * uint a + uint b) div 256 = uint a" using a by simp
  have m: "(256 * uint a + uint b) mod 256 = uint b" using a by simp
  have r: "0 \<le> 256 * uint a + uint b \<and> 256 * uint a + uint b \<le> 65535" using a by simp
  show ?thesis unfolding pack_H_def using r d m by simp
qed

lemma pack_B_length: "n \<le> 255 \<Longrightarrow> pack_B (int n) = Inr [word_of_nat n]"
  by (simp add: pack_B_def)

lemma start_index_zero: "(256 * uint (s1::byte) + uint (s0::byte) = 0) = (s1 = 0 \<and> s0 = 0)"
proof -
  have a: "0 \<le> uint s1" "0 \<le> uint s0" by simp_all
  have "(256 * uint s1 + uint s0 = 0) = (uint s1 = 0 \<and> uint s0 = 0)" using a by arith
  then show ?thesis by (simp add: uint_0_iff)
qed

lemma reserved_zero:
  assumes "7 \<le> length b"
  shows "(py_slice b 1 6 = [0, 0, 0, 0, 0]) = (\<forall>i. 1 \<le> i \<and> i \<le> 5 \<longrightarrow> b ! i = (0::byte))"
proof -
  have r: "[0, 0, 0, 0, 0] = replicate 5 (0::byte)"
    by (simp add: numeral_eq_Suc)
  have len: "length (py_slice b 1 6) = 5"
    using assms by (simp add: py_slice_def)
  have nth: "py_slice b 1 6 ! i = b ! (i + 1)" if "i < 5" for i
    using that assms by (simp add: py_slice_def)
  have "(py_slice b 1 6 = replicate 5 0) = (\<forall>i<5. py_slice b 1 6 ! i = 0)"
    using len by (auto simp: list_eq_iff_nth_eq)
  also have "\<dots> = (\<forall>i<5. b ! (i + 1) = 0)"
    using nth by simp
  also have "\<dots> = (\<forall>i. 1 \<le> i \<and> i \<le> 5 \<longrightarrow> b ! i = 0)"
  proof
    assume a: "\<forall>i<5. b ! (i + 1) = 0"
    show "\<forall>i. 1 \<le> i \<and> i \<le> 5 \<longrightarrow> b ! i = 0"
    proof (intro allI impI)
      fix i :: nat assume h: "1 \<le> i \<and> i \<le> 5"
      then have "i - 1 < 5" by arith
      then have "b ! ((i - 1) + 1) = 0" using a by blast
      then show "b ! i = 0" using h by simp
    qed
  next
    assume a: "\<forall>i. 1 \<le> i \<and> i \<le> 5 \<longrightarrow> b ! i = 0"
    show "\<forall>i<5. b ! (i + 1) = 0"
    proof (intro allI impI)
      fix i :: nat assume "i < 5"
      then have "1 \<le> i + 1 \<and> i + 1 \<le> 5" by arith
      then show "b ! (i + 1) = 0" using a by blast
    qed
  qed
  finally show ?thesis using r by simp
qed

lemma routed_reply_data: "routed_reply (d\<lparr>data := b\<rparr>) t payload = routed_reply d t payload"
  by (simp add: routed_reply_def)

section \<open>Lemmas on the query handler\<close>

text \<open>
  The networks \<^verbatim>\<open>_query\<close> decodes are tuples, \<^verbatim>\<open>struct.pack\<close> refuses a tuple where
  it expects an integer, and so the zone list of a query is empty or is never built.
\<close>

lemma take_two_drop:
  assumes "k + 2 \<le> length b"
  shows "take 2 (drop k b) = [b ! k, b ! Suc k]"
proof (rule nth_equalityI)
  show "length (take 2 (drop k b)) = length [b ! k, b ! Suc k]"
    using assms by simp
next
  fix i assume "i < length (take 2 (drop k b))"
  then have "i = 0 \<or> i = 1" using assms by auto
  then show "take 2 (drop k b) ! i = [b ! k, b ! Suc k] ! i"
    using assms by auto
qed

lemma unpack_H_pair: "unpack_H [hi, lo] = Inr (PyTuple [PyInt (256 * uint hi + uint lo)])"
  by (simp add: unpack_H_def)

lemma unpack_network_at:
  assumes "2 * i + 4 \<le> length b"
  shows "unpack_H (py_slice b (i * 2 + 2) (i * 2 + 4))
         = Inr (PyTuple [PyInt (256 * uint (b ! (2 * i + 2)) + uint (b ! (2 * i + 3)))])"
proof -
  have l: "(2 * i + 2) + 2 \<le> length b" using assms by simp
  have "py_slice b (i * 2 + 2) (i * 2 + 4) = take 2 (drop (2 * i + 2) b)"
    by (simp add: py_slice_def mult.commute)
  also have "\<dots> = [b ! (2 * i + 2), b ! Suc (2 * i + 2)]"
    by (rule take_two_drop [OF l])
  also have "Suc (2 * i + 2) = 2 * i + 3" by simp
  finally show ?thesis by (simp only: unpack_H_pair)
qed

lemma unpack_networks_map:
  "\<forall>i \<in> set ixs. 2 * i + 4 \<le> length b \<Longrightarrow>
   unpack_networks b ixs =
     Inr (map (\<lambda>i. PyTuple [PyInt (256 * uint (b ! (2 * i + 2)) + uint (b ! (2 * i + 3)))]) ixs)"
proof (induction ixs)
  case Nil
  then show ?case by simp
next
  case (Cons i ixs)
  have a: "2 * i + 4 \<le> length b" using Cons.prems by simp
  have ih: "unpack_networks b ixs =
     Inr (map (\<lambda>i. PyTuple [PyInt (256 * uint (b ! (2 * i + 2)) + uint (b ! (2 * i + 3)))]) ixs)"
    using Cons by simp
  show ?case unfolding unpack_networks.simps unpack_network_at [OF a] ih by simp
qed

lemma upt_2: "[0..<2] = [0, 1]"
  by (simp add: numeral_2_eq_2)

lemma unpack_networks_requested:
  assumes "length b = 2 + 2 * unat (b ! 1)"
  shows "unpack_networks b [0..<unat (b ! 1)] = Inr (requested_networks b)"
  unfolding requested_networks_def
proof (rule unpack_networks_map)
  show "\<forall>i\<in>set [0..<unat (b ! 1)]. 2 * i + 4 \<le> length b"
    using assms by auto
qed

lemma zone_items_tuple:
  "zone_items (PyTuple xs) zs = (if zs = [] then Inr [] else Inl StructError)"
  by (cases zs) (simp_all add: pack_HB_def)

lemma networks_zone_list_tuples:
  "\<forall>v \<in> set nets. \<exists>xs. v = PyTuple xs \<Longrightarrow>
   networks_zone_list zit nets = Inr [] \<or> networks_zone_list zit nets = Inl StructError"
proof (induction nets)
  case Nil
  then show ?case by simp
next
  case (Cons v nets)
  then obtain xs where v: "v = PyTuple xs" by auto
  have ih: "networks_zone_list zit nets = Inr [] \<or> networks_zone_list zit nets = Inl StructError"
    using Cons by simp
  show ?case using ih by (auto simp: v zone_items_tuple)
qed

lemma requested_networks_tuples: "\<forall>v \<in> set (requested_networks b). \<exists>xs. v = PyTuple xs"
  by (auto simp: requested_networks_def)

lemma length_requested_networks: "length (requested_networks b) = unat (b ! 1)"
  by (simp add: requested_networks_def)

lemma pack_B_unat: "pack_B (int (unat (x::byte))) = Inr [x]"
proof -
  have "uint x < 2 ^ LENGTH(8)" by (rule uint_lt2p)
  then show ?thesis by (simp add: pack_B_def)
qed

lemma query_accepted:
  assumes "4 \<le> length (data d)" and "length (data d) = 2 + 2 * unat (data d ! 1)"
  shows "query C zit max_len d =
     (case networks_zone_list zit (requested_networks (data d)) of
        Inl e \<Rightarrow> ([], Some e)
      | Inr nzl \<Rightarrow>
          if int (sum_list (map (\<lambda>(net, list_item). length list_item) nzl)) + 2 \<le> max_len
          then ([Route (routed_reply d (ZIP_DDP_TYPE C)
                          ([ZIP_FUNC_REPLY C, data d ! 1] @ concat (map snd nzl)))], None)
          else fragment_networks C max_len d (group_by_network nzl))"
proof -
  have a: "\<not> length (data d) < 4" using assms(1) by simp
  have b: "\<not> length (data d) \<noteq> unat (data d ! 1) * 2 + 2" using assms(2) by simp
  have u: "unpack_networks (data d) [0..<unat (data d ! 1)] = Inr (requested_networks (data d))"
    by (rule unpack_networks_requested [OF assms(2)])
  show ?thesis
    unfolding query_def Let_def if_not_P [OF a] if_not_P [OF b] u sum.case
      length_requested_networks pack_B_unat
    by (simp split: sum.splits)
qed

lemma query_outcomes:
  "query C zit max_len d = ([], None) \<or>
   query C zit max_len d = ([], Some StructError) \<or>
   query C zit max_len d = ([Route (routed_reply d (ZIP_DDP_TYPE C) [ZIP_FUNC_REPLY C, data d ! 1])], None)"
proof (cases "4 \<le> length (data d) \<and> length (data d) = 2 + 2 * unat (data d ! 1)")
  case True
  then have a: "4 \<le> length (data d)" and b: "length (data d) = 2 + 2 * unat (data d ! 1)"
    by simp_all
  have "networks_zone_list zit (requested_networks (data d)) = Inr [] \<or>
        networks_zone_list zit (requested_networks (data d)) = Inl StructError"
    by (rule networks_zone_list_tuples) (rule requested_networks_tuples)
  then show ?thesis
  proof
    assume e: "networks_zone_list zit (requested_networks (data d)) = Inr []"
    show ?thesis
    proof (cases "2 \<le> max_len")
      case True
      then have "query C zit max_len d
        = ([Route (routed_reply d (ZIP_DDP_TYPE C) [ZIP_FUNC_REPLY C, data d ! 1])], None)"
        unfolding query_accepted [OF a b] e by simp
      then show ?thesis by simp
    next
      case False
      then have "query C zit max_len d = ([], None)"
        unfolding query_accepted [OF a b] e by (simp add: group_by_network_def)
      then show ?thesis by simp
    qed
  next
    assume e: "networks_zone_list zit (requested_networks (data d)) = Inl StructError"
    have "query C zit max_len d = ([], Some StructError)"
      unfolding query_accepted [OF a b] e by simp
    then show ?thesis by simp
  qed
next
  case False
  then have "length (data d) < 4 \<or> length (data d) \<noteq> unat (data d ! 1) * 2 + 2" by auto
  then have "query C zit max_len d = ([], None)"
    unfolding query_def Let_def by auto
  then show ?thesis by simp
qed

text \<open>
  The fragmenting branch, run by itself on a zone list it would get if the networks
  were integers, with room for ten bytes of entries per datagram: the second datagram
  repeats the entry of the first and is longer than the maximum of twelve, and the
  sentinel \<^verbatim>\<open>None\<close> ends the handler with \<^verbatim>\<open>TypeError\<close> before network 20 is
  reached.
\<close>

lemma fragment_networks_sample:
  "fragment_networks appletalk 12 (request 6 [])
     (group_by_network
        [(PyInt 10, [0, 10, 2, 72, 82]), (PyInt 10, [0, 10, 3, 69, 110, 103]),
         (PyInt 20, [0, 20, 1, 66])])
   = ([Route (routed_reply (request 6 []) 6 [8, 2, 0, 10, 2, 72, 82]),
       Route (routed_reply (request 6 []) 6 [8, 2, 0, 10, 2, 72, 82, 0, 10, 3, 69, 110, 103])],
      Some TypeError)"
  by (simp add: group_by_network_def appletalk_def pack_B_def)

section \<open>Lemmas on the page of a zone list\<close>

text \<open>
  The \<^verbatim>\<open>while\<close> loop of \<^verbatim>\<open>_get_zone_list\<close> returns a prefix of the names before
  the first empty one: the longest that fits.
\<close>

lemma pack_H_nat: "n \<le> 65535 \<Longrightarrow> pack_H (int n) = Inr (be16 n)"
proof -
  assume "n \<le> 65535"
  then have r: "0 \<le> int n \<and> int n \<le> 65535" by simp
  have d: "int n div 256 = int (n div 256)" by (simp add: zdiv_int)
  have m: "int n mod 256 = int (n mod 256)" by (simp add: zmod_int)
  show ?thesis unfolding pack_H_def be16_def d m using r by simp
qed

lemma concat_length_name_pairs:
  "concat (zl @ concat (map (\<lambda>z. [[word_of_nat (length z)], z]) page))
   = concat zl @ concat (map entry page)"
  by (induction page arbitrary: zl) (simp_all add: entry_def)

lemma entries_size_Cons: "entries_size (z # zs) = 1 + length z + entries_size zs"
  by (simp add: entries_size_def)

lemma entries_size_Nil: "entries_size [] = 0"
  by (simp add: entries_size_def)

lemma collect_zones_page:
  assumes "\<forall>z \<in> set zs. length z \<le> 255"
  shows "\<exists>page flag.
      collect_zones max_len zs zl n dl
        = Inr (flag, zl @ concat (map (\<lambda>z. [[word_of_nat (length z)], z]) page), n + length page)
    \<and> prefix page (takeWhile (\<lambda>z. z \<noteq> []) zs)
    \<and> (page \<noteq> [] \<longrightarrow> int dl + int (entries_size page) \<le> max_len)
    \<and> (page \<noteq> takeWhile (\<lambda>z. z \<noteq> []) zs \<longrightarrow>
          int dl + int (entries_size page) + 1
            + int (length (takeWhile (\<lambda>z. z \<noteq> []) zs ! length page)) > max_len)
    \<and> (flag = 1) = (page = takeWhile (\<lambda>z. z \<noteq> []) zs)
    \<and> (flag = 0 \<or> flag = 1)"
  using assms
proof (induction zs arbitrary: zl n dl)
  case Nil
  show ?case
    by (rule exI [of _ "[]"], rule exI [of _ 1]) simp
next
  case (Cons z zs)
  show ?case
  proof (cases "z = []")
    case True
    show ?thesis
      by (rule exI [of _ "[]"], rule exI [of _ 1]) (simp add: True)
  next
    case nonempty: False
    show ?thesis
    proof (cases "int dl + 1 + int (length z) > max_len")
      case True
      show ?thesis
        by (rule exI [of _ "[]"], rule exI [of _ 0])
           (use True nonempty in \<open>simp add: entries_size_Nil\<close>)
    next
      case fits: False
      have lz: "length z \<le> 255" using Cons.prems by simp
      have pk: "pack_B (int (length z)) = Inr [word_of_nat (length z)]"
        using lz by (simp add: pack_B_def)
      have step: "collect_zones max_len (z # zs) zl n dl
        = collect_zones max_len zs (zl @ [[word_of_nat (length z)], z]) (n + 1) (dl + 1 + length z)"
        using nonempty fits pk by simp
      have prems': "\<forall>z \<in> set zs. length z \<le> 255" using Cons.prems by simp
      obtain page flag where
        r: "collect_zones max_len zs (zl @ [[word_of_nat (length z)], z]) (n + 1) (dl + 1 + length z)
            = Inr (flag, (zl @ [[word_of_nat (length z)], z])
                         @ concat (map (\<lambda>z. [[word_of_nat (length z)], z]) page),
                   (n + 1) + length page)"
        and p: "prefix page (takeWhile (\<lambda>z. z \<noteq> []) zs)"
        and f: "page \<noteq> [] \<longrightarrow> int (dl + 1 + length z) + int (entries_size page) \<le> max_len"
        and x: "page \<noteq> takeWhile (\<lambda>z. z \<noteq> []) zs \<longrightarrow>
                 int (dl + 1 + length z) + int (entries_size page) + 1
                   + int (length (takeWhile (\<lambda>z. z \<noteq> []) zs ! length page)) > max_len"
        and l: "(flag = 1) = (page = takeWhile (\<lambda>z. z \<noteq> []) zs)"
        and b: "flag = 0 \<or> flag = 1"
        using Cons.IH [OF prems', of "zl @ [[word_of_nat (length z)], z]" "n + 1" "dl + 1 + length z"]
        by blast
      have tw: "takeWhile (\<lambda>z. z \<noteq> []) (z # zs) = z # takeWhile (\<lambda>z. z \<noteq> []) zs"
        using nonempty by simp
      have c1: "collect_zones max_len (z # zs) zl n dl
        = Inr (flag, zl @ concat (map (\<lambda>z. [[word_of_nat (length z)], z]) (z # page)),
               n + length (z # page))"
        unfolding step r by simp
      have c2: "prefix (z # page) (takeWhile (\<lambda>z. z \<noteq> []) (z # zs))"
        unfolding tw using p by simp
      have c3: "int dl + int (entries_size (z # page)) \<le> max_len"
      proof (cases "page = []")
        case True
        then show ?thesis using fits by (simp add: entries_size_Cons entries_size_Nil)
      next
        case False
        then show ?thesis using f by (simp add: entries_size_Cons)
      qed
      have c4: "z # page \<noteq> takeWhile (\<lambda>z. z \<noteq> []) (z # zs) \<longrightarrow>
                 int dl + int (entries_size (z # page)) + 1
                   + int (length (takeWhile (\<lambda>z. z \<noteq> []) (z # zs) ! length (z # page))) > max_len"
        unfolding tw using x by (simp add: entries_size_Cons)
      have c5: "(flag = 1) = (z # page = takeWhile (\<lambda>z. z \<noteq> []) (z # zs))"
        unfolding tw using l by simp
      show ?thesis
        by (rule exI [of _ "z # page"], rule exI [of _ flag]) (use c1 c2 c3 c4 c5 b in blast)
    qed
  qed
qed

text \<open>
  The reply of \<^verbatim>\<open>_get_zone_list\<close> once the loop has returned its page.
\<close>

lemma get_zone_list_collected:
  assumes iter: "zone_iter =
      (case rx_port of
         Some p \<Rightarrow> zones_in_network_range zit (network_min p) (network_max p)
       | None \<Rightarrow> zones zit)"
    and coll: "collect_zones max_len (drop (skip_count (256 * uint s1 + uint s0)) zone_iter) [] 0 8
               = Inr (flag, zone_list, num_zones)"
    and num: "num_zones \<le> 65535"
  shows "get_zone_list C zit max_len (d\<lparr>data := [c, m, t1, t0, f, u, s1, s0]\<rparr>) rx_port
        = ([Route (routed_reply d (ATP_DDP_TYPE C)
                     ([ATP_FUNC_TRESP C OR ATP_EOM C, 0, t1, t0, flag, 0]
                      @ be16 num_zones @ concat zone_list))], None)"
  using coll pack_H_nat [OF num]
  by (simp add: get_zone_list_def unpack_BBHBBH_def iter [symmetric] pack_H_uint
      routed_reply_data)

section \<open>Lemmas on the scan of a port's zones\<close>

text \<open>Clearing and setting flag bits.\<close>

lemma and_not_self: "(a AND NOT b) AND b = (0::byte)"
  by (simp add: and.assoc)

lemma and_not_other: "a AND b = 0 \<Longrightarrow> (a AND NOT c) AND b = (0::byte)"
proof -
  assume z: "a AND b = 0"
  have "(a AND NOT c) AND b = (a AND b) AND NOT c"
    by (simp add: ac_simps)
  then show ?thesis using z by simp
qed

lemma and_not_disjoint: "b AND c = 0 \<Longrightarrow> a AND b = b \<Longrightarrow> (a AND NOT c) AND b = (b::byte)"
proof -
  assume d: "b AND c = 0" and s: "a AND b = b"
  have "(a AND NOT c) AND b = (a AND b) AND NOT c"
    by (simp add: ac_simps)
  also have "\<dots> = b AND NOT c" using s by simp
  also have "\<dots> = b" using d by (simp add: bit_eq_iff bit_simps) metis
  finally show ?thesis .
qed

lemma or_disjoint: "b AND c = 0 \<Longrightarrow> (a OR c) AND b = a AND (b::byte)"
proof -
  assume d: "b AND c = 0"
  have "(a OR c) AND b = (a AND b) OR (c AND b)"
    by (simp add: bit.conj_disj_distrib2)
  then show ?thesis using d by (simp add: and.commute)
qed

text \<open>
  The loop of \<^verbatim>\<open>_get_net_info\<close>: the default zone is the first zone seen, the
  zone-invalid bit once cleared stays cleared, it is cleared when some zone folds to the
  given name and only then, and the multicast address comes from the port.
\<close>

lemma scan_zones_default:
  "scan_zones C p ucase given (fl, dz, n, mc) zs = (fl', dz', n', mc') \<Longrightarrow>
   dz' = (case dz of None \<Rightarrow> next_or_None zs | Some x \<Rightarrow> Some x)"
proof (induction zs arbitrary: fl dz n mc given)
  case Nil
  then show ?case by (auto simp: next_or_None_def split: option.splits)
next
  case (Cons z zs)
  from Cons.prems show ?case
    by (auto simp: Let_def next_or_None_def split: if_splits option.splits dest!: Cons.IH)
qed

lemma scan_zones_found_stays:
  "fl AND ZIP_GETNETINFO_ZONE_INVALID C = 0 \<Longrightarrow>
   scan_zones C p ucase given (fl, dz, n, mc) zs = (fl', dz', n', mc') \<Longrightarrow>
   fl' AND ZIP_GETNETINFO_ZONE_INVALID C = 0"
proof (induction zs arbitrary: fl dz n mc)
  case Nil
  then show ?case by simp
next
  case (Cons z zs)
  have ih: "\<And>fl dz n mc. fl AND ZIP_GETNETINFO_ZONE_INVALID C = 0 \<Longrightarrow>
     scan_zones C p ucase given (fl, dz, n, mc) zs = (fl', dz', n', mc') \<Longrightarrow>
     fl' AND ZIP_GETNETINFO_ZONE_INVALID C = 0"
    by (rule Cons.IH)
  from Cons.prems show ?case
    by (auto simp: Let_def and_not_self and_not_other split: if_splits
        intro: ih [rotated])
qed

lemma scan_zones_match:
  "\<exists>z \<in> set zs. ucase z = given \<Longrightarrow>
   scan_zones C p ucase given (fl, dz, n, mc) zs = (fl', dz', n', mc') \<Longrightarrow>
   fl' AND ZIP_GETNETINFO_ZONE_INVALID C = 0"
proof (induction zs arbitrary: fl dz n mc)
  case Nil
  then show ?case by simp
next
  case (Cons z zs)
  show ?case
  proof (cases "ucase z = given")
    case True
    from Cons.prems(2) True show ?thesis
      by (auto simp: Let_def and_not_self and_not_other split: if_splits
          intro: scan_zones_found_stays [rotated])
  next
    case False
    then have m: "\<exists>z \<in> set zs. ucase z = given" using Cons.prems(1) by auto
    from Cons.prems(2) False show ?thesis
      by (auto simp: Let_def split: if_splits intro: Cons.IH [OF m])
  qed
qed

lemma scan_zones_no_match:
  assumes nz: "ZIP_GETNETINFO_ZONE_INVALID C \<noteq> 0"
    and dj: "ZIP_GETNETINFO_ZONE_INVALID C AND ZIP_GETNETINFO_ONLY_ONE_ZONE C = 0"
  shows "\<forall>z \<in> set zs. ucase z \<noteq> given \<Longrightarrow>
   fl AND ZIP_GETNETINFO_ZONE_INVALID C = ZIP_GETNETINFO_ZONE_INVALID C \<Longrightarrow>
   scan_zones C p ucase given (fl, dz, n, mc) zs = (fl', dz', n', mc') \<Longrightarrow>
   fl' AND ZIP_GETNETINFO_ZONE_INVALID C = ZIP_GETNETINFO_ZONE_INVALID C"
proof (induction zs arbitrary: fl dz n mc)
  case Nil
  then show ?case by simp
next
  case (Cons z zs)
  have nm: "\<forall>z \<in> set zs. ucase z \<noteq> given" and nz': "ucase z \<noteq> given"
    using Cons.prems(1) by auto
  have keep: "(fl AND NOT (ZIP_GETNETINFO_ONLY_ONE_ZONE C)) AND ZIP_GETNETINFO_ZONE_INVALID C
              = ZIP_GETNETINFO_ZONE_INVALID C"
    by (rule and_not_disjoint [OF dj Cons.prems(2)])
  from Cons.prems(3) nz' show ?case
    using keep nz Cons.prems(2)
    by (auto simp: Let_def split: if_splits intro: Cons.IH [OF nm, rotated])
qed

lemma scan_zones_mcast:
  assumes "\<forall>z. length (multicast_address p z) \<le> 255"
  shows "length mc \<le> 255 \<Longrightarrow>
   scan_zones C p ucase given (fl, dz, n, mc) zs = (fl', dz', n', mc') \<Longrightarrow>
   length mc' \<le> 255"
proof (induction zs arbitrary: fl dz n mc)
  case Nil
  then show ?case by simp
next
  case (Cons z zs)
  have a: "length (multicast_address p z) \<le> 255" using assms by simp
  from Cons.prems(2) show ?case
    using a Cons.prems(1)
    by (auto simp: Let_def split: if_splits intro: Cons.IH [rotated])
qed

lemma or_and_left: "(a OR b) AND a = (a::byte)"
  by (simp add: bit_eq_iff bit_simps)

lemma pack_H_int: "0 \<le> x \<Longrightarrow> x \<le> 65535 \<Longrightarrow> pack_H x = Inr (be16 (nat x))"
  using pack_H_nat [of "nat x"] by simp

lemma unat_byte_le: "unat (x::byte) \<le> 255"
proof -
  have "unat x < 2 ^ LENGTH(8)" by (rule unsigned_less)
  then show ?thesis by simp
qed

section \<open>The properties\<close>

subsection \<open>Queries\<close>

text \<open>
  C1 does not hold of the code. The claim: when the zone list of a query is too long for
  one datagram, the extended replies together carry exactly its entries, none split, no
  payload longer than the maximum. The code: whatever the table holds and whatever the
  maximum is, \<^verbatim>\<open>_query\<close> routes nothing at all or one plain reply that is only the
  two-byte header; no extended reply and no zone entry ever leaves it.
\<close>

theorem query_routes_no_zone_entry:
  "fst (query C zit max_len d) = [] \<or>
   fst (query C zit max_len d) = [Route (routed_reply d (ZIP_DDP_TYPE C) [ZIP_FUNC_REPLY C, data d ! 1])]"
proof -
  have "query C zit max_len d = ([], None) \<or>
   query C zit max_len d = ([], Some StructError) \<or>
   query C zit max_len d = ([Route (routed_reply d (ZIP_DDP_TYPE C) [ZIP_FUNC_REPLY C, data d ! 1])], None)"
    by (rule query_outcomes)
  then show ?thesis by (elim disjE) simp_all
qed

text \<open>
  C3 does not hold of the code. The claim: with network 10 in zones Sales and Eng and
  network 20 in zone HR, the query for networks 10 and 20 gets one reply with networks
  field 2 and the three entries. The code: the request decodes to the tuples \<open>(10,)\<close>
  and \<open>(20,)\<close>, and for every table and every maximum the outcome is one of three:
  nothing (a maximum below 2), \<^verbatim>\<open>struct.error\<close> with nothing routed (the table gives
  a zone for one of the tuples), or a reply of the two header bytes alone.
\<close>

theorem query_scenario_outcomes:
  "requested_networks [q, 2, 0, 10, 0, 20] = [PyTuple [PyInt 10], PyTuple [PyInt 20]] \<and>
   (query C zit max_len (d\<lparr>data := [q, 2, 0, 10, 0, 20]\<rparr>) = ([], None) \<or>
    query C zit max_len (d\<lparr>data := [q, 2, 0, 10, 0, 20]\<rparr>) = ([], Some StructError) \<or>
    query C zit max_len (d\<lparr>data := [q, 2, 0, 10, 0, 20]\<rparr>)
      = ([Route (routed_reply d (ZIP_DDP_TYPE C) [ZIP_FUNC_REPLY C, 2])], None))"
proof -
  have n: "requested_networks [q, 2, 0, 10, 0, 20] = [PyTuple [PyInt 10], PyTuple [PyInt 20]]"
    by (simp add: requested_networks_def upt_2)
  have r: "routed_reply (d\<lparr>data := [q, 2, 0, 10, 0, 20]\<rparr>) (ZIP_DDP_TYPE C)
             [ZIP_FUNC_REPLY C, data (d\<lparr>data := [q, 2, 0, 10, 0, 20]\<rparr>) ! 1]
           = routed_reply d (ZIP_DDP_TYPE C) [ZIP_FUNC_REPLY C, 2]"
    by (simp add: routed_reply_def)
  show ?thesis
    using n query_outcomes [of C zit max_len "d\<lparr>data := [q, 2, 0, 10, 0, 20]\<rparr>"]
    unfolding r by blast
qed


subsection \<open>The dispatch loop\<close>

text \<open>
  C2 does not hold of the code. The claim: no item makes the worker raise; in particular
  a get-net-info request on a port whose range has no zone does not end it. The code:
  with that request first in the queue, \<^verbatim>\<open>len(default_zone_name)\<close> raises
  \<^verbatim>\<open>TypeError\<close> on \<^verbatim>\<open>None\<close>, nothing catches it, and the worker ends without a
  reply, without handling the next request and without reaching the stop flag.
\<close>

theorem run_crashes_on_range_without_zones:
  "run appletalk (uniform_table []) ascii_ucase 586
     [Work (request 6 [5, 0, 0, 0, 0, 0, 0]) sample_port,
      Work (request 3 [64, 1, 0, 9, 8, 0, 0, 1]) sample_port,
      Stop]
   = ([], Crashed TypeError)"
  by (simp add: dispatch_def get_net_info_def request_def appletalk_def sample_port_def
      uniform_table_def py_slice_def pack_H_def pack_B_def default_zone_tail_def ascii_ucase_def)

subsection \<open>Malformed queries\<close>

text \<open>
  C6, as the specification states it, fails: a query that lists no network has a payload
  of two bytes, which is \<open>2 + 2 * count\<close> for the count 0 it carries, and \<^verbatim>\<open>_query\<close>
  returns at its first line, \<^verbatim>\<open>if len(datagram.data) < 4: return\<close>, without a reply.
\<close>

theorem query_count_zero_dropped:
  "length (data (request 6 [1, 0])) = 2 + 2 * unat (data (request 6 [1, 0]) ! 1) \<and>
   query appletalk (uniform_table []) 586 (request 6 [1, 0]) = ([], None)"
  by (simp add: query_def request_def)

text \<open>
  C6, amended: \<^verbatim>\<open>_query\<close> replies only to a payload that is at least four bytes long
  and whose length is \<open>2 + 2 * count\<close>, \<open>count\<close> being its second byte. Every other
  payload, the two-byte query for no network among them, is dropped: nothing is routed
  and nothing is raised.
\<close>

theorem query_dropped_unless_length_ok:
  "length (data d) < 4 \<or> length (data d) \<noteq> 2 + 2 * unat (data d ! 1) \<Longrightarrow>
   query C zit max_len d = ([], None)"
  by (auto simp: query_def Let_def)

theorem query_dropped_unless_length_ok_witness:
  "(length (data (request 6 [1, 1, 0, 10, 0])) < 4 \<or>
    length (data (request 6 [1, 1, 0, 10, 0])) \<noteq> 2 + 2 * unat (data (request 6 [1, 1, 0, 10, 0]) ! 1)) \<and>
   query appletalk (uniform_table [[72, 82]]) 586 (request 6 [1, 1, 0, 10, 0]) = ([], None)"
  using query_dropped_unless_length_ok [of "request 6 [1, 1, 0, 10, 0]" appletalk "uniform_table [[72, 82]]" 586]
  by (simp add: request_def)

subsection \<open>Malformed get-net-info requests\<close>

text \<open>
  C7, as the specification states it, fails: \<^verbatim>\<open>_get_net_info\<close> never compares the
  length byte of the given zone with the payload. A request that announces three name
  bytes and carries one is answered, the given zone being the one byte the slice
  \<^verbatim>\<open>datagram.data[7:7 + datagram.data[6]]\<close> finds.
\<close>

theorem get_net_info_length_byte_unchecked:
  "unat (data (request 6 [5, 0, 0, 0, 0, 0, 3, 65]) ! 6) = 3 \<and>
   length (drop 7 (data (request 6 [5, 0, 0, 0, 0, 0, 3, 65]))) = 1 \<and>
   get_net_info appletalk (uniform_table [[65]]) ascii_ucase (request 6 [5, 0, 0, 0, 0, 0, 3, 65]) sample_port
   = ([Send 10 7 \<lparr>hop_count = 0, destination_network = 10, source_network = 10,
                   destination_node = 7, source_node = 1, destination_socket = 253,
                   source_socket = 6, ddp_type = 6,
                   data = [6, 96, 0, 10, 0, 12, 1, 65, 0]\<rparr>], None)"
  by (simp add: get_net_info_def request_def uniform_table_def sample_port_def appletalk_def
      py_slice_def ascii_ucase_def pack_H_def pack_B_def default_zone_tail_def)

text \<open>
  C7, amended: a get-net-info request is dropped, with no reply and no exception, when
  the port's network, lower bound or upper bound is zero, when the payload is shorter
  than seven bytes, or when one of the five bytes after the function code is not zero.
  (The length byte is not checked against the payload.)
\<close>

theorem get_net_info_dropped:
  "network p = 0 \<or> network_min p = 0 \<or> network_max p = 0 \<or> length (data d) < 7 \<or>
   (\<exists>i. 1 \<le> i \<and> i \<le> 5 \<and> data d ! i \<noteq> 0) \<Longrightarrow>
   get_net_info C zit ucase d p = ([], None)"
proof (cases "7 \<le> length (data d)")
  case True
  assume "network p = 0 \<or> network_min p = 0 \<or> network_max p = 0 \<or> length (data d) < 7 \<or>
   (\<exists>i. 1 \<le> i \<and> i \<le> 5 \<and> data d ! i \<noteq> 0)"
  then have "network p = 0 \<or> network_min p = 0 \<or> network_max p = 0 \<or> py_slice (data d) 1 6 \<noteq> [0, 0, 0, 0, 0]"
    using True reserved_zero [OF True] by auto
  then show ?thesis by (auto simp: get_net_info_def)
next
  case False
  then show ?thesis by (simp add: get_net_info_def)
qed

theorem get_net_info_dropped_witness:
  "(network sample_port = 0 \<or> network_min sample_port = 0 \<or> network_max sample_port = 0 \<or>
    length (data (request 6 [5, 0, 0, 1, 0, 0, 1, 65])) < 7 \<or>
    (\<exists>i. 1 \<le> i \<and> i \<le> 5 \<and> data (request 6 [5, 0, 0, 1, 0, 0, 1, 65]) ! i \<noteq> 0)) \<and>
   get_net_info appletalk (uniform_table [[65]]) ascii_ucase (request 6 [5, 0, 0, 1, 0, 0, 1, 65]) sample_port
   = ([], None)"
proof -
  have h: "\<exists>i. 1 \<le> i \<and> i \<le> 5 \<and> data (request 6 [5, 0, 0, 1, 0, 0, 1, 65]) ! i \<noteq> 0"
    by (rule exI [of _ 3]) (simp add: request_def)
  then show ?thesis
    using get_net_info_dropped [of sample_port "request 6 [5, 0, 0, 1, 0, 0, 1, 65]" appletalk "uniform_table [[65]]" ascii_ucase]
    by blast
qed

subsection \<open>The reply to a get-net-info request\<close>

text \<open>
  C8, as the specification states it, fails: when the port's range has no zone, no zone
  matches the given name, and there is no reply at all, with or without a default zone:
  \<^verbatim>\<open>len(default_zone_name)\<close> raises \<^verbatim>\<open>TypeError\<close>.
\<close>

theorem get_net_info_no_zone_raises:
  "zones_in_network_range (uniform_table []) (network_min sample_port) (network_max sample_port) = [] \<and>
   get_net_info appletalk (uniform_table []) ascii_ucase (request 6 [5, 0, 0, 0, 0, 0, 1, 65]) sample_port
   = ([], Some TypeError)"
  by (simp add: get_net_info_def request_def uniform_table_def sample_port_def appletalk_def
      py_slice_def ascii_ucase_def pack_H_def pack_B_def default_zone_tail_def)

text \<open>
  C8, amended: for every well-formed get-net-info request on a port whose range has at
  least one zone (the bounds of the range fit 16 bits, the first zone and the port's
  multicast addresses are at most 255 bytes long, and the zone-invalid flag is a nonzero
  bit pattern disjoint from the two other flags): one reply is sent through the port, and
  its given-zone field is byte for byte the queried name. If the queried name folds to the
  same as some zone of the range, the zone-invalid bit of the reply is cleared and
  nothing follows the multicast address. If it folds to the same as none, the
  zone-invalid bit stays set and the reply ends with the length and the bytes of the first
  zone enumerated for the range. The trailing entry is there if and only if the
  zone-invalid bit is set.
\<close>

theorem get_net_info_reply:
  assumes port: "network p \<noteq> 0" "network_min p \<noteq> 0" "network_max p \<noteq> 0"
    and lo: "0 \<le> network_min p" "network_min p \<le> 65535"
    and hi: "0 \<le> network_max p" "network_max p \<le> 65535"
    and len: "7 \<le> length (data d)"
    and zero: "\<forall>i. 1 \<le> i \<and> i \<le> 5 \<longrightarrow> data d ! i = 0"
    and given: "given = take (unat (data d ! 6)) (drop 7 (data d))"
    and zs: "zones_in_network_range zit (network_min p) (network_max p) = first_zone # others"
    and first: "length first_zone \<le> 255"
    and mcl: "\<forall>zone_name. length (multicast_address p zone_name) \<le> 255"
    and nz: "ZIP_GETNETINFO_ZONE_INVALID C \<noteq> 0"
    and dj1: "ZIP_GETNETINFO_ZONE_INVALID C AND ZIP_GETNETINFO_ONLY_ONE_ZONE C = 0"
    and dj2: "ZIP_GETNETINFO_ZONE_INVALID C AND ZIP_GETNETINFO_USE_BROADCAST C = 0"
  shows "\<exists>flags mcast tail.
      get_net_info C zit ucase d p
        = ([Send (source_network d) (source_node d)
              \<lparr>hop_count = 0,
               destination_network = source_network d,
               source_network = network p,
               destination_node = source_node d,
               source_node = node p,
               destination_socket = source_socket d,
               source_socket = ZIP_SAS C,
               ddp_type = ZIP_DDP_TYPE C,
               data = [ZIP_FUNC_GETNETINFO_REPLY C, flags] @ be16 (nat (network_min p))
                      @ be16 (nat (network_max p)) @ [word_of_nat (length given)] @ given
                      @ [word_of_nat (length mcast)] @ mcast @ tail\<rparr>], None)
    \<and> ((\<exists>zone_name \<in> set (first_zone # others). ucase zone_name = ucase given) \<longrightarrow>
          flags AND ZIP_GETNETINFO_ZONE_INVALID C = 0 \<and> tail = [])
    \<and> ((\<forall>zone_name \<in> set (first_zone # others). ucase zone_name \<noteq> ucase given) \<longrightarrow>
          flags AND ZIP_GETNETINFO_ZONE_INVALID C = ZIP_GETNETINFO_ZONE_INVALID C
          \<and> tail = entry first_zone)
    \<and> (tail \<noteq> []) = (flags AND ZIP_GETNETINFO_ZONE_INVALID C \<noteq> 0)"
proof -
  let ?ZI = "ZIP_GETNETINFO_ZONE_INVALID C"
  let ?zs = "first_zone # others"
  obtain fl dz n mc where
    sc: "scan_zones C p ucase (ucase given)
           (?ZI OR ZIP_GETNETINFO_ONLY_ONE_ZONE C, None, 0, []) ?zs = (fl, dz, n, mc)"
    by (metis prod_cases4)
  define flags where
    "flags = (if mc = [] then fl OR ZIP_GETNETINFO_USE_BROADCAST C else fl)"
  define tail where
    "tail = (if flags AND ?ZI \<noteq> 0 then entry first_zone else [])"
  have dz: "dz = Some first_zone"
    using scan_zones_default [OF sc] by (simp add: next_or_None_def)
  have mc: "length mc \<le> 255"
    by (rule scan_zones_mcast [OF mcl _ sc]) simp
  have fz: "flags AND ?ZI = fl AND ?ZI"
    unfolding flags_def using or_disjoint [OF dj2, of fl] by simp
  have found: "fl AND ?ZI = 0" if "\<exists>zone_name \<in> set ?zs. ucase zone_name = ucase given"
    by (rule scan_zones_match [OF that sc])
  have init: "(?ZI OR ZIP_GETNETINFO_ONLY_ONE_ZONE C) AND ?ZI = ?ZI"
    by (rule or_and_left)
  have missing: "fl AND ?ZI = ?ZI" if "\<forall>zone_name \<in> set ?zs. ucase zone_name \<noteq> ucase given"
    by (rule scan_zones_no_match [OF nz dj1 that init sc])
  have tl: "default_zone_tail C flags dz = Inr tail"
    unfolding default_zone_tail_def dz tail_def
    using first by (simp add: pack_B_length entry_def)
  have gl: "length given \<le> 255"
    unfolding given using unat_byte_le [of "data d ! 6"] by simp
  have rz: "py_slice (data d) 1 6 = [0, 0, 0, 0, 0]"
    using reserved_zero [OF len] zero by simp
  have gs: "py_slice (data d) 7 (7 + unat (data d ! 6)) = given"
    unfolding given by (simp add: py_slice_def)
  have g: "get_net_info C zit ucase d p
        = ([Send (source_network d) (source_node d)
              \<lparr>hop_count = 0,
               destination_network = source_network d,
               source_network = network p,
               destination_node = source_node d,
               source_node = node p,
               destination_socket = source_socket d,
               source_socket = ZIP_SAS C,
               ddp_type = ZIP_DDP_TYPE C,
               data = [ZIP_FUNC_GETNETINFO_REPLY C, flags] @ be16 (nat (network_min p))
                      @ be16 (nat (network_max p)) @ [word_of_nat (length given)] @ given
                      @ [word_of_nat (length mc)] @ mc @ tail\<rparr>], None)"
    unfolding get_net_info_def Let_def gs zs sc prod.case flags_def [symmetric] tl
      pack_H_int [OF lo] pack_H_int [OF hi] pack_B_length [OF gl] pack_B_length [OF mc]
    using port len rz by simp
  have t1: "(\<exists>zone_name \<in> set ?zs. ucase zone_name = ucase given) \<longrightarrow>
          flags AND ?ZI = 0 \<and> tail = []"
    using found fz by (simp add: tail_def)
  have t2: "(\<forall>zone_name \<in> set ?zs. ucase zone_name \<noteq> ucase given) \<longrightarrow>
          flags AND ?ZI = ?ZI \<and> tail = entry first_zone"
    using missing fz nz by (simp add: tail_def)
  have t3: "(tail \<noteq> []) = (flags AND ?ZI \<noteq> 0)"
    by (simp add: tail_def entry_def)
  show ?thesis
    by (rule exI [of _ flags], rule exI [of _ mc], rule exI [of _ tail]) (use g t1 t2 t3 in blast)
qed

theorem get_net_info_reply_witness:
  "network sample_port \<noteq> 0 \<and> network_min sample_port \<noteq> 0 \<and> network_max sample_port \<noteq> 0 \<and>
   7 \<le> length (data (request 6 [5, 0, 0, 0, 0, 0, 2, 104, 114])) \<and>
   zones_in_network_range (uniform_table [[72, 82], [69]]) (network_min sample_port)
     (network_max sample_port) = [72, 82] # [[69]] \<and>
   (\<exists>flags mcast tail.
      get_net_info appletalk (uniform_table [[72, 82], [69]]) ascii_ucase
        (request 6 [5, 0, 0, 0, 0, 0, 2, 104, 114]) sample_port
        = ([Send 10 7
              \<lparr>hop_count = 0, destination_network = 10, source_network = 10,
               destination_node = 7, source_node = 1, destination_socket = 253,
               source_socket = 6, ddp_type = 6,
               data = [6, flags] @ be16 10 @ be16 12 @ [2] @ [104, 114]
                      @ [word_of_nat (length mcast)] @ mcast @ tail\<rparr>], None)
    \<and> ((\<exists>zone_name \<in> set ([72, 82] # [[69]]). ascii_ucase zone_name = ascii_ucase [104, 114]) \<longrightarrow>
          flags AND 128 = 0 \<and> tail = [])
    \<and> ((\<forall>zone_name \<in> set ([72, 82] # [[69]]). ascii_ucase zone_name \<noteq> ascii_ucase [104, 114]) \<longrightarrow>
          flags AND 128 = 128 \<and> tail = entry [72, 82])
    \<and> (tail \<noteq> []) = (flags AND 128 \<noteq> 0))"
proof -
  let ?d = "request 6 [5, 0, 0, 0, 0, 0, 2, 104, 114]"
  let ?t = "uniform_table [[72, 82], [69]]"
  have p: "network sample_port \<noteq> 0" "network_min sample_port \<noteq> 0" "network_max sample_port \<noteq> 0"
    by (simp_all add: sample_port_def)
  have lo: "0 \<le> network_min sample_port" "network_min sample_port \<le> 65535"
    by (simp_all add: sample_port_def)
  have hi: "0 \<le> network_max sample_port" "network_max sample_port \<le> 65535"
    by (simp_all add: sample_port_def)
  have len: "7 \<le> length (data ?d)" by (simp add: request_def)
  have "py_slice (data ?d) 1 6 = [0, 0, 0, 0, 0]" by (simp add: request_def py_slice_def)
  then have zero: "\<forall>i. 1 \<le> i \<and> i \<le> 5 \<longrightarrow> data ?d ! i = 0"
    using reserved_zero [OF len] by simp
  have given: "[104, 114] = take (unat (data ?d ! 6)) (drop 7 (data ?d))"
    by (simp add: request_def)
  have zs: "zones_in_network_range ?t (network_min sample_port) (network_max sample_port)
            = [72, 82] # [[69]]"
    by (simp add: uniform_table_def)
  have first: "length [72 :: byte, 82] \<le> 255" by simp
  have mcl: "\<forall>zone_name. length (multicast_address sample_port zone_name) \<le> 255"
    by (simp add: sample_port_def)
  have nz: "ZIP_GETNETINFO_ZONE_INVALID appletalk \<noteq> 0" by (simp add: appletalk_def)
  have dj1: "ZIP_GETNETINFO_ZONE_INVALID appletalk AND ZIP_GETNETINFO_ONLY_ONE_ZONE appletalk = 0"
    by (simp add: appletalk_def)
  have dj2: "ZIP_GETNETINFO_ZONE_INVALID appletalk AND ZIP_GETNETINFO_USE_BROADCAST appletalk = 0"
    by (simp add: appletalk_def)
  show ?thesis
    using get_net_info_reply [OF p lo hi len zero given zs first mcl nz dj1 dj2, of ascii_ucase]
      p len zs
    by (simp add: appletalk_def sample_port_def request_def)
qed

subsection \<open>get-my-zone\<close>

text \<open>
  C9, as the specification states it, fails: \<^verbatim>\<open>if not zone_name: return\<close> also drops
  the request when the first zone of the source network is the empty name, although
  the table has zones for that network.
\<close>

theorem get_my_zone_empty_first_zone:
  "zones_in_network (uniform_table [[], [72, 82]]) (PyInt (source_network (request 3 [64, 1, 0, 9, 7, 0, 0, 0]))) = [[], [72, 82]] \<and>
   get_my_zone appletalk (uniform_table [[], [72, 82]]) (request 3 [64, 1, 0, 9, 7, 0, 0, 0]) = ([], None)"
  by (simp add: get_my_zone_def request_def uniform_table_def unpack_BBHBBH_def next_or_None_def falsy_def)

text \<open>
  C9, amended: a get-my-zone request with a nonzero start index gets no reply. With
  start index zero, when the first zone of the datagram's source network is a non-empty
  name of at most 255 bytes, exactly one reply is routed: the ATP header with the
  response and end-of-message bits, bitmap zero, the request's transaction id, two zero
  bytes and the count 1 in two bytes, then the length and the bytes of that zone. When
  the source network has no zone, or its first zone is the empty name, there is no
  reply.
\<close>

theorem get_my_zone_reply:
  "(s1 \<noteq> 0 \<or> s0 \<noteq> 0 \<longrightarrow>
      get_my_zone C zit (d\<lparr>data := [c, m, t1, t0, f, z, s1, s0]\<rparr>) = ([], None)) \<and>
   (zones_in_network zit (PyInt (source_network d)) = zone_name # rest \<and> zone_name \<noteq> [] \<and>
    length zone_name \<le> 255 \<longrightarrow>
      get_my_zone C zit (d\<lparr>data := [c, m, t1, t0, f, z, 0, 0]\<rparr>)
      = ([Route (routed_reply d (ATP_DDP_TYPE C)
                   ([ATP_FUNC_TRESP C OR ATP_EOM C, 0, t1, t0, 0, 0, 0, 1,
                     word_of_nat (length zone_name)] @ zone_name))], None)) \<and>
   (zones_in_network zit (PyInt (source_network d)) = [] \<or>
    (\<exists>rest. zones_in_network zit (PyInt (source_network d)) = [] # rest) \<longrightarrow>
      get_my_zone C zit (d\<lparr>data := [c, m, t1, t0, f, z, s1, s0]\<rparr>) = ([], None))"
  by (auto simp: get_my_zone_def unpack_BBHBBH_def start_index_zero next_or_None_def falsy_def
      pack_H_uint pack_B_length routed_reply_data)

theorem get_my_zone_reply_witness:
  "get_my_zone appletalk (uniform_table [[72, 82]]) ((request 3 [])\<lparr>data := [64, 1, 0, 9, 7, 0, 0, 2]\<rparr>)
     = ([], None) \<and>
   get_my_zone appletalk (uniform_table [[72, 82]]) ((request 3 [])\<lparr>data := [64, 1, 0, 9, 7, 0, 0, 0]\<rparr>)
     = ([Route (routed_reply (request 3 []) 3 [144, 0, 0, 9, 0, 0, 0, 1, 2, 72, 82])], None) \<and>
   get_my_zone appletalk (uniform_table []) ((request 3 [])\<lparr>data := [64, 1, 0, 9, 7, 0, 0, 0]\<rparr>)
     = ([], None)"
  using
    get_my_zone_reply [where ?s1.0 = 0 and ?s0.0 = 2 and C = appletalk
      and zit = "uniform_table [[72, 82]]" and d = "request 3 []" and c = 64 and m = 1
      and ?t1.0 = 0 and ?t0.0 = 9 and f = 7 and z = 0 and zone_name = "[72, 82]" and rest = "[]"]
    get_my_zone_reply [where ?s1.0 = 0 and ?s0.0 = 0 and C = appletalk
      and zit = "uniform_table []" and d = "request 3 []" and c = 64 and m = 1
      and ?t1.0 = 0 and ?t0.0 = 9 and f = 7 and z = 0 and zone_name = "[72, 82]" and rest = "[]"]
  by (simp add: uniform_table_def appletalk_def)

subsection \<open>get-zone-list\<close>

text \<open>
  C5, as the specification states it, fails: the loop \<^verbatim>\<open>while zone_name := next(...)\<close>
  ends, through its \<^verbatim>\<open>else\<close> clause, at an empty zone name as it does at the end of
  the sequence. With the empty name first and another zone after it, the page is empty,
  the zone that would fit is not collected, and the last flag is 1.
\<close>

theorem get_zone_list_stops_at_empty_name:
  "zones (uniform_table [[], [65]]) = [[], [65]] \<and>
   get_zone_list appletalk (uniform_table [[], [65]]) 586 (request 3 [64, 1, 0, 9, 8, 0, 0, 1]) None
   = ([Route (routed_reply (request 3 [64, 1, 0, 9, 8, 0, 0, 1]) 3 [144, 0, 0, 9, 1, 0, 0, 0])], None)"
  by (simp add: get_zone_list_def request_def uniform_table_def appletalk_def unpack_BBHBBH_def
      skip_count_def pack_H_def routed_reply_def)

text \<open>
  C5, amended: for every get-zone-list request, with or without a port, over a sequence
  of at most 65535 zone names of at most 255 bytes each: the handler skips
  \<open>start_index - 1\<close> zones (none when that is negative) and takes what follows up to
  the first empty name, which ends the sequence for it. The page it returns is a prefix
  of that rest, fits the maximum with the eight bytes of header, and is the longest such
  prefix: the next entry would push the payload past the maximum. The last flag is 1 if
  the page is the whole rest and 0 otherwise, and the count field is the number of
  entries.
\<close>

theorem get_zone_list_page:
  assumes iter: "zone_iter =
      (case rx_port of
         Some p \<Rightarrow> zones_in_network_range zit (network_min p) (network_max p)
       | None \<Rightarrow> zones zit)"
    and names: "\<forall>zone_name \<in> set zone_iter. length zone_name \<le> 255"
    and count: "length zone_iter \<le> 65535"
    and start: "start_index = 256 * uint s1 + uint s0"
    and rest: "rest = takeWhile (\<lambda>zone_name. zone_name \<noteq> [])
                        (drop (nat (start_index - 1)) zone_iter)"
  shows "\<exists>page last_flag.
      get_zone_list C zit max_len (d\<lparr>data := [c, m, t1, t0, f, u, s1, s0]\<rparr>) rx_port
        = ([Route (routed_reply d (ATP_DDP_TYPE C)
                     ([ATP_FUNC_TRESP C OR ATP_EOM C, 0, t1, t0, last_flag, 0]
                      @ be16 (length page) @ concat (map entry page)))], None)
    \<and> prefix page rest
    \<and> (page \<noteq> [] \<longrightarrow> 8 + int (entries_size page) \<le> max_len)
    \<and> (page \<noteq> rest \<longrightarrow>
          8 + int (entries_size page) + 1 + int (length (rest ! length page)) > max_len)
    \<and> (last_flag = 1) = (page = rest)
    \<and> (last_flag = 0 \<or> last_flag = 1)"
proof -
  let ?zs = "drop (nat (start_index - 1)) zone_iter"
  have n: "\<forall>z \<in> set ?zs. length z \<le> 255"
    using names by (meson in_set_dropD)
  obtain page flag where
    r: "collect_zones max_len ?zs [] 0 8
        = Inr (flag, [] @ concat (map (\<lambda>z. [[word_of_nat (length z)], z]) page), 0 + length page)"
    and p: "prefix page (takeWhile (\<lambda>z. z \<noteq> []) ?zs)"
    and f: "page \<noteq> [] \<longrightarrow> int 8 + int (entries_size page) \<le> max_len"
    and x: "page \<noteq> takeWhile (\<lambda>z. z \<noteq> []) ?zs \<longrightarrow>
             int 8 + int (entries_size page) + 1
               + int (length (takeWhile (\<lambda>z. z \<noteq> []) ?zs ! length page)) > max_len"
    and l: "(flag = 1) = (page = takeWhile (\<lambda>z. z \<noteq> []) ?zs)"
    and b: "flag = 0 \<or> flag = 1"
    using collect_zones_page [OF n, of max_len "[]" 0 8] by blast
  have "length page \<le> length rest"
    using p unfolding rest by (rule prefix_length_le)
  also have "\<dots> \<le> length ?zs"
    unfolding rest by (rule length_takeWhile_le)
  also have "\<dots> \<le> length zone_iter" by simp
  finally have "length page \<le> 65535" using count by simp
  then have pn: "pack_H (int (length page)) = Inr (be16 (length page))"
    by (rule pack_H_nat)
  have cc: "concat ([] @ concat (map (\<lambda>z. [[word_of_nat (length z)], z]) page))
            = concat (map entry page)"
    using concat_length_name_pairs [of "[]" page] by simp
  have g: "get_zone_list C zit max_len (d\<lparr>data := [c, m, t1, t0, f, u, s1, s0]\<rparr>) rx_port
        = ([Route (routed_reply d (ATP_DDP_TYPE C)
                     ([ATP_FUNC_TRESP C OR ATP_EOM C, 0, t1, t0, flag, 0]
                      @ be16 (length page) @ concat (map entry page)))], None)"
    using r pn cc
    by (simp add: get_zone_list_def unpack_BBHBBH_def skip_count_def iter [symmetric]
        start [symmetric] pack_H_uint routed_reply_data)
  show ?thesis
    by (rule exI [of _ page], rule exI [of _ flag]) (use g p f x l b rest in simp)
qed

theorem get_zone_list_page_witness:
  "[[65], [66, 67], [68]]
     = (case (None :: port option) of
          Some p \<Rightarrow> zones_in_network_range (uniform_table [[65], [66, 67], [68]]) (network_min p) (network_max p)
        | None \<Rightarrow> zones (uniform_table [[65], [66, 67], [68]])) \<and>
   length [[65], [66, 67], [68 :: byte]] \<le> 65535 \<and>
   (\<exists>page last_flag.
      get_zone_list appletalk (uniform_table [[65], [66, 67], [68]]) 12
        ((request 3 [])\<lparr>data := [64, 1, 0, 9, 8, 0, 0, 2]\<rparr>) None
        = ([Route (routed_reply (request 3 []) 3
                     ([144, 0, 0, 9, last_flag, 0] @ be16 (length page) @ concat (map entry page)))],
           None)
    \<and> prefix page [[66, 67], [68]]
    \<and> (page \<noteq> [] \<longrightarrow> 8 + int (entries_size page) \<le> 12)
    \<and> (page \<noteq> [[66, 67], [68]] \<longrightarrow>
          8 + int (entries_size page) + 1 + int (length ([[66, 67], [68 :: byte]] ! length page)) > 12)
    \<and> (last_flag = 1) = (page = [[66, 67], [68]])
    \<and> (last_flag = 0 \<or> last_flag = 1))"
proof -
  let ?t = "uniform_table [[65], [66, 67], [68]]"
  have a: "[[65], [66, 67], [68]]
     = (case (None :: port option) of
          Some p \<Rightarrow> zones_in_network_range ?t (network_min p) (network_max p)
        | None \<Rightarrow> zones ?t)"
    by (simp add: uniform_table_def)
  have b: "\<forall>zone_name \<in> set [[65], [66, 67], [68 :: byte]]. length zone_name \<le> 255" by simp
  have c: "length [[65], [66, 67], [68 :: byte]] \<le> 65535" by simp
  have s: "(2::int) = 256 * uint (0::byte) + uint (2::byte)" by simp
  have r: "[[66, 67], [68 :: byte]]
     = takeWhile (\<lambda>zone_name. zone_name \<noteq> []) (drop (nat (2 - 1)) [[65], [66, 67], [68]])"
    by simp
  show ?thesis
    using get_zone_list_page [OF a b c s r, where C = appletalk and max_len = 12
        and d = "request 3 []" and c = 64 and m = 1 and ?t1.0 = 0 and ?t0.0 = 9 and f = 8 and u = 0]
      a c
    by (simp add: appletalk_def)
qed

text \<open>
  C10: a get-zone-list request with start index 0 is answered, not dropped, and skips no
  zone. Over a sequence of at most 65535 zone names of at most 255 bytes each, with or
  without a port, exactly one reply is routed. Its page is taken from the very start of
  the sequence: it is a prefix of the names before the first empty one, fits the maximum
  with the eight bytes of header, is the longest such prefix, and begins with the first
  zone of the sequence whenever that zone fits. The same request with start index 1 has
  the same outcome.
\<close>

theorem get_zone_list_start_index_0_like_1:
  assumes iter: "zone_iter =
      (case rx_port of
         Some p \<Rightarrow> zones_in_network_range zit (network_min p) (network_max p)
       | None \<Rightarrow> zones zit)"
    and names: "\<forall>zone_name \<in> set zone_iter. length zone_name \<le> 255"
    and count: "length zone_iter \<le> 65535"
    and rest: "rest = takeWhile (\<lambda>zone_name. zone_name \<noteq> []) zone_iter"
  shows "\<exists>page last_flag.
      get_zone_list C zit max_len (d\<lparr>data := [c, m, t1, t0, f, u, 0, 0]\<rparr>) rx_port
        = ([Route (routed_reply d (ATP_DDP_TYPE C)
                     ([ATP_FUNC_TRESP C OR ATP_EOM C, 0, t1, t0, last_flag, 0]
                      @ be16 (length page) @ concat (map entry page)))], None)
    \<and> get_zone_list C zit max_len (d\<lparr>data := [c, m, t1, t0, f, u, 0, 1]\<rparr>) rx_port
        = get_zone_list C zit max_len (d\<lparr>data := [c, m, t1, t0, f, u, 0, 0]\<rparr>) rx_port
    \<and> prefix page rest
    \<and> (page \<noteq> [] \<longrightarrow> 8 + int (entries_size page) \<le> max_len)
    \<and> (page \<noteq> rest \<longrightarrow>
          8 + int (entries_size page) + 1 + int (length (rest ! length page)) > max_len)
    \<and> (last_flag = 1) = (page = rest)
    \<and> (rest \<noteq> [] \<and> 8 + 1 + int (length (hd rest)) \<le> max_len \<longrightarrow>
          page \<noteq> [] \<and> hd page = hd zone_iter)"
proof -
  obtain page flag where
    r: "collect_zones max_len zone_iter [] 0 8
        = Inr (flag, [] @ concat (map (\<lambda>z. [[word_of_nat (length z)], z]) page), 0 + length page)"
    and p: "prefix page (takeWhile (\<lambda>z. z \<noteq> []) zone_iter)"
    and f: "page \<noteq> [] \<longrightarrow> int 8 + int (entries_size page) \<le> max_len"
    and x: "page \<noteq> takeWhile (\<lambda>z. z \<noteq> []) zone_iter \<longrightarrow>
             int 8 + int (entries_size page) + 1
               + int (length (takeWhile (\<lambda>z. z \<noteq> []) zone_iter ! length page)) > max_len"
    and l: "(flag = 1) = (page = takeWhile (\<lambda>z. z \<noteq> []) zone_iter)"
    using collect_zones_page [OF names, of max_len "[]" 0 8] by blast
  have "length page \<le> length rest"
    using p unfolding rest by (rule prefix_length_le)
  also have "\<dots> \<le> length zone_iter"
    unfolding rest by (rule length_takeWhile_le)
  finally have n: "0 + length page \<le> 65535" using count by simp
  have r': "collect_zones max_len zone_iter [] 0 8
        = Inr (flag, concat (map (\<lambda>z. [[word_of_nat (length z)], z]) page), length page)"
    using r by simp
  have n': "length page \<le> 65535" using n by simp
  have cc: "concat (concat (map (\<lambda>z. [[word_of_nat (length z)], z]) page))
            = concat (map entry page)"
    using concat_length_name_pairs [of "[]" page] by simp
  have s0: "drop (skip_count (256 * uint (0::byte) + uint (0::byte))) zone_iter = zone_iter"
    by (simp add: skip_count_def)
  have s1: "drop (skip_count (256 * uint (0::byte) + uint (1::byte))) zone_iter = zone_iter"
    by (simp add: skip_count_def)
  have c0: "collect_zones max_len
              (drop (skip_count (256 * uint (0::byte) + uint (0::byte))) zone_iter) [] 0 8
        = Inr (flag, concat (map (\<lambda>z. [[word_of_nat (length z)], z]) page), length page)"
    unfolding s0 by (rule r')
  have c1: "collect_zones max_len
              (drop (skip_count (256 * uint (0::byte) + uint (1::byte))) zone_iter) [] 0 8
        = Inr (flag, concat (map (\<lambda>z. [[word_of_nat (length z)], z]) page), length page)"
    unfolding s1 by (rule r')
  have g0: "get_zone_list C zit max_len (d\<lparr>data := [c, m, t1, t0, f, u, 0, 0]\<rparr>) rx_port
        = ([Route (routed_reply d (ATP_DDP_TYPE C)
                     ([ATP_FUNC_TRESP C OR ATP_EOM C, 0, t1, t0, flag, 0]
                      @ be16 (length page) @ concat (map entry page)))], None)"
    using get_zone_list_collected [OF iter c0 n'] unfolding cc .
  have g1: "get_zone_list C zit max_len (d\<lparr>data := [c, m, t1, t0, f, u, 0, 1]\<rparr>) rx_port
        = ([Route (routed_reply d (ATP_DDP_TYPE C)
                     ([ATP_FUNC_TRESP C OR ATP_EOM C, 0, t1, t0, flag, 0]
                      @ be16 (length page) @ concat (map entry page)))], None)"
    using get_zone_list_collected [OF iter c1 n'] unfolding cc .
  have tw: "takeWhile (\<lambda>z. z \<noteq> []) zone_iter = rest" using rest by simp
  have p': "prefix page rest" using p unfolding tw .
  have x': "page \<noteq> rest \<longrightarrow>
             8 + int (entries_size page) + 1 + int (length (rest ! length page)) > max_len"
    using x unfolding tw by simp
  have l': "(flag = 1) = (page = rest)" using l unfolding tw .
  have first: "page \<noteq> [] \<and> hd page = hd zone_iter"
    if h: "rest \<noteq> [] \<and> 8 + 1 + int (length (hd rest)) \<le> max_len"
  proof -
    have ne: "page \<noteq> []"
    proof
      assume e: "page = []"
      have "page \<noteq> rest" using h e by auto
      then have "8 + int (entries_size page) + 1 + int (length (rest ! length page)) > max_len"
        using x' by simp
      moreover have "rest ! 0 = hd rest" using h by (simp add: hd_conv_nth)
      ultimately show False using h e by (simp add: entries_size_Nil)
    qed
    obtain q qs where q: "page = q # qs" using ne by (cases page) auto
    obtain ys where "rest = (q # qs) @ ys" using p' q by (auto simp: prefix_def)
    then have hr: "hd rest = q" by simp
    have "hd rest = hd zone_iter"
    proof (cases zone_iter)
      case Nil
      then show ?thesis using h tw by simp
    next
      case (Cons y ys)
      then show ?thesis using h tw by (cases "y = []") auto
    qed
    then show ?thesis using ne hr q by simp
  qed
  show ?thesis
    by (rule exI [of _ page], rule exI [of _ flag]) (use g0 g1 p' f x' l' first in simp)
qed

theorem get_zone_list_start_index_0_like_1_witness:
  "[[65], [66, 67], [68]]
     = (case (None :: port option) of
          Some p \<Rightarrow> zones_in_network_range (uniform_table [[65], [66, 67], [68]]) (network_min p) (network_max p)
        | None \<Rightarrow> zones (uniform_table [[65], [66, 67], [68]])) \<and>
   length [[65], [66, 67], [68 :: byte]] \<le> 65535 \<and>
   (\<exists>page last_flag.
      get_zone_list appletalk (uniform_table [[65], [66, 67], [68]]) 12
        ((request 3 [])\<lparr>data := [64, 1, 0, 9, 8, 0, 0, 0]\<rparr>) None
        = ([Route (routed_reply (request 3 []) 3
                     ([144, 0, 0, 9, last_flag, 0] @ be16 (length page) @ concat (map entry page)))],
           None)
    \<and> get_zone_list appletalk (uniform_table [[65], [66, 67], [68]]) 12
        ((request 3 [])\<lparr>data := [64, 1, 0, 9, 8, 0, 0, 1]\<rparr>) None
        = get_zone_list appletalk (uniform_table [[65], [66, 67], [68]]) 12
            ((request 3 [])\<lparr>data := [64, 1, 0, 9, 8, 0, 0, 0]\<rparr>) None
    \<and> prefix page [[65], [66, 67], [68]]
    \<and> (page \<noteq> [] \<longrightarrow> 8 + int (entries_size page) \<le> 12)
    \<and> (page \<noteq> [[65], [66, 67], [68]] \<longrightarrow>
          8 + int (entries_size page) + 1
            + int (length ([[65], [66, 67], [68 :: byte]] ! length page)) > 12)
    \<and> (last_flag = 1) = (page = [[65], [66, 67], [68]])
    \<and> page \<noteq> [] \<and> hd page = [65])"
proof -
  let ?t = "uniform_table [[65], [66, 67], [68]]"
  have a: "[[65], [66, 67], [68]]
     = (case (None :: port option) of
          Some p \<Rightarrow> zones_in_network_range ?t (network_min p) (network_max p)
        | None \<Rightarrow> zones ?t)"
    by (simp add: uniform_table_def)
  have b: "\<forall>zone_name \<in> set [[65], [66, 67], [68 :: byte]]. length zone_name \<le> 255" by simp
  have c: "length [[65], [66, 67], [68 :: byte]] \<le> 65535" by simp
  have r: "[[65], [66, 67], [68 :: byte]]
     = takeWhile (\<lambda>zone_name. zone_name \<noteq> []) [[65], [66, 67], [68]]"
    by simp
  show ?thesis
    using get_zone_list_start_index_0_like_1 [OF a b c r, where C = appletalk and max_len = 12
        and d = "request 3 []" and c = 64 and m = 1 and ?t1.0 = 0 and ?t0.0 = 9 and f = 8 and u = 0]
      a c
    by (simp add: appletalk_def)
qed

end
